theory Spec2Isabelle
  imports Main
begin

section \<open>Project Tracker: the task list of project\_tracker.c\<close>

text \<open>
  The program keeps its tasks in a GtkListBox: one row per task, each row holding a check
  button (the completion flag) and a label (the task text). The list is written to
  \<^verbatim>\<open>tasks.txt\<close> after every change and read back at start-up. The widgets, the file
  and the console are modelled as one record that every callback takes and returns.
\<close>

subsection \<open>Characters and C strings\<close>

abbreviation newline :: char where
  "newline \<equiv> CHR 0x0A"

abbreviation NUL :: char where
  "NUL \<equiv> CHR 0x00"

abbreviation semicolon :: char where
  "semicolon \<equiv> CHR 0x3B"

text \<open>
  A buffer is read as a C string: the characters before the first NUL.
\<close>

definition cstr :: "string \<Rightarrow> string" where
  "cstr buf = takeWhile (\<lambda>c. c \<noteq> NUL) buf"

text \<open>
  \<^verbatim>\<open>strchr(s, c)\<close>: the position of the first \<open>c\<close> in the C string \<open>s\<close>, or NULL.
\<close>

definition strchr :: "string \<Rightarrow> char \<Rightarrow> nat option" where
  "strchr s c = (if c \<in> set s then Some (length (takeWhile (\<lambda>d. d \<noteq> c) s)) else None)"

text \<open>
  \<^verbatim>\<open>atoi(s)\<close> as the GNU C library has it on a 64-bit system: it is
  \<^verbatim>\<open>(int) strtol(s, NULL, 10)\<close>. \<^verbatim>\<open>strtol\<close> skips leading white space, reads an
  optional sign and then decimal digits up to the first character that is not one, and
  returns their value, or \<^verbatim>\<open>LONG_MAX\<close> or \<^verbatim>\<open>LONG_MIN\<close> when the value does not fit a
  64-bit \<^verbatim>\<open>long\<close>. The cast to \<^verbatim>\<open>int\<close> keeps the low 32 bits, read as a signed number.
  ISO C leaves \<^verbatim>\<open>atoi\<close> undefined where the value does not fit an \<^verbatim>\<open>int\<close>; where it
  fits, the result is the value itself.
\<close>

definition isspace :: "char \<Rightarrow> bool" where
  "isspace c = (c \<in> {CHR 0x20, CHR 0x09, CHR 0x0A, CHR 0x0B, CHR 0x0C, CHR 0x0D})"

definition isdigit :: "char \<Rightarrow> bool" where
  "isdigit c = (48 \<le> (of_char c :: nat) \<and> (of_char c :: nat) \<le> 57)"

definition LONG_MAX :: int where
  "LONG_MAX = 2 ^ 63 - 1"

definition LONG_MIN :: int where
  "LONG_MIN = - (2 ^ 63)"

definition INT_MAX :: int where
  "INT_MAX = 2 ^ 31 - 1"

definition INT_MIN :: int where
  "INT_MIN = - (2 ^ 31)"

text \<open>The digit loop of \<^verbatim>\<open>strtol\<close>; the value is kept exact here and cut to the range
  of \<^verbatim>\<open>long\<close> when the loop has ended.\<close>

fun digits_value :: "int \<Rightarrow> string \<Rightarrow> int" where
  "digits_value acc [] = acc"
| "digits_value acc (c # cs) =
     (if isdigit c then digits_value (acc * 10 + (of_char c - 48)) cs else acc)"

definition saturate_long :: "int \<Rightarrow> int" where
  "saturate_long v = (if v > LONG_MAX then LONG_MAX else if v < LONG_MIN then LONG_MIN else v)"

definition strtol :: "string \<Rightarrow> int" where
  "strtol s =
     (case dropWhile isspace s of
        [] \<Rightarrow> 0
      | c # cs \<Rightarrow>
          if c = CHR ''-'' then saturate_long (- digits_value 0 cs)
          else if c = CHR ''+'' then saturate_long (digits_value 0 cs)
          else saturate_long (digits_value 0 (c # cs)))"

text \<open>The cast of a \<^verbatim>\<open>long\<close> to \<^verbatim>\<open>int\<close>: the low 32 bits in two's complement.\<close>

definition int_of_long :: "int \<Rightarrow> int" where
  "int_of_long v = (v + 2 ^ 31) mod 2 ^ 32 - 2 ^ 31"

definition atoi :: "string \<Rightarrow> int" where
  "atoi s = int_of_long (strtol s)"

text \<open>
  \<^verbatim>\<open>fgets(line, n, file)\<close> reads at most \<open>n - 1\<close> characters and stops after a newline,
  which it keeps. It returns NULL when the stream is at its end and nothing was read.
  The result is the buffer and the rest of the stream.
\<close>

fun fgets_chars :: "nat \<Rightarrow> string \<Rightarrow> string \<times> string" where
  "fgets_chars 0 s = ([], s)"
| "fgets_chars (Suc k) [] = ([], [])"
| "fgets_chars (Suc k) (c # s) =
     (if c = newline then ([c], s)
      else (c # fst (fgets_chars k s), snd (fgets_chars k s)))"

definition fgets :: "nat \<Rightarrow> string \<Rightarrow> (string \<times> string) option" where
  "fgets n s = (if s = [] then None else Some (fgets_chars (n - 1) s))"

subsection \<open>Widgets and the application state\<close>

text \<open>
  A GtkListBoxRow as built by \<^verbatim>\<open>create_list_item\<close>: the check button's state, the
  label's text, whether the label carries the CSS class "completed", and whether the row
  is selected in the list box.
\<close>

record row =
  check_active :: bool
  label_text :: string
  label_completed :: bool
  row_selected :: bool

datatype message = G_warning string | G_print string

text \<open>
  \<open>tasks_txt\<close> is what \<^verbatim>\<open>fopen("tasks.txt", "r")\<close> gives: the contents, or \<open>None\<close> when
  the call returns NULL. \<open>fopen_w_ok\<close> tells whether \<^verbatim>\<open>fopen("tasks.txt", "w")\<close>
  succeeds. \<open>saves\<close> counts the calls of \<^verbatim>\<open>save_tasks_to_file\<close>.
\<close>

record app =
  list_box :: "row list"
  entry :: string
  tasks_txt :: "string option"
  fopen_w_ok :: bool
  console :: "message list"
  saves :: nat

definition create_list_item :: "string \<Rightarrow> bool \<Rightarrow> row" where
  "create_list_item text_arg is_completed =
     \<lparr>check_active = is_completed, label_text = text_arg,
      label_completed = is_completed, row_selected = False\<rparr>"

text \<open>The task a row stands for: what \<^verbatim>\<open>save_tasks_to_file\<close> reads from it.\<close>

record task =
  task_text :: string
  task_completed :: bool

definition task_of :: "row \<Rightarrow> task" where
  "task_of r = \<lparr>task_text = label_text r, task_completed = check_active r\<rparr>"

definition tasks :: "app \<Rightarrow> task list" where
  "tasks w = map task_of (list_box w)"

subsection \<open>Saving\<close>

text \<open>\<^verbatim>\<open>fprintf(file, "%d;%s\n", is_completed, text)\<close>, with a gboolean that is 0 or 1.\<close>

definition fprintf_task :: "bool \<Rightarrow> string \<Rightarrow> string" where
  "fprintf_task is_completed text_arg =
     (if is_completed then ''1'' else ''0'') @ [semicolon] @ text_arg @ [newline]"

definition gtk_list_box_get_row_at_index :: "row list \<Rightarrow> nat \<Rightarrow> row option" where
  "gtk_list_box_get_row_at_index lb i = (if i < length lb then Some (lb ! i) else None)"

text \<open>The while loop of \<^verbatim>\<open>save_tasks_to_file\<close>, from the row at index \<open>i\<close> on.\<close>

function save_rows :: "row list \<Rightarrow> nat \<Rightarrow> string \<Rightarrow> string" where
  "save_rows lb i out =
     (case gtk_list_box_get_row_at_index lb i of
        None \<Rightarrow> out
      | Some r \<Rightarrow> save_rows lb (i + 1) (out @ fprintf_task (check_active r) (label_text r)))"
  by pat_completeness auto
termination
  by (relation "measure (\<lambda>(lb, i, out). length lb - i)")
     (auto simp: gtk_list_box_get_row_at_index_def split: if_splits)

declare save_rows.simps [simp del]

definition save_tasks_to_file :: "app \<Rightarrow> app" where
  "save_tasks_to_file w =
     (if \<not> fopen_w_ok w
      then w\<lparr>console := console w @ [G_warning ''Could not open file 'tasks.txt' for writing.''],
             saves := saves w + 1\<rparr>
      else w\<lparr>tasks_txt := Some (save_rows (list_box w) 0 []),
             saves := saves w + 1\<rparr>)"

subsection \<open>Loading\<close>

text \<open>The removal of the newline: the text is cut at its first newline, if it has one.\<close>

definition cut_newline :: "string \<Rightarrow> string" where
  "cut_newline text_arg =
     (case strchr text_arg newline of Some j \<Rightarrow> take j text_arg | None \<Rightarrow> text_arg)"

text \<open>The body of the while loop of \<^verbatim>\<open>load_tasks_from_file\<close>, for one buffer.\<close>

definition parse_line :: "string \<Rightarrow> row" where
  "parse_line buf =
     (let line = cstr buf in
      case strchr line semicolon of
        Some i \<Rightarrow>
          create_list_item (cut_newline (drop (i + 1) line)) (atoi (take i line) = 1)
      | None \<Rightarrow> create_list_item (cut_newline line) False)"

function load_lines :: "string \<Rightarrow> row list \<Rightarrow> row list" where
  "load_lines stream lb =
     (case fgets 1024 stream of
        None \<Rightarrow> lb
      | Some (buf, rest) \<Rightarrow> load_lines rest (lb @ [parse_line buf]))"
  by pat_completeness auto
termination
proof (relation "measure (\<lambda>(stream, lb). length stream)")
  show "wf (measure (\<lambda>(stream, lb). length stream))" by simp
next
  fix stream :: string and lb :: "row list" and x2 buf rest
  assume "fgets 1024 stream = Some x2" and "(buf, rest) = x2"
  then have ne: "stream \<noteq> []" and rest: "rest = snd (fgets_chars 1023 stream)"
    by (auto simp: fgets_def split: if_splits)
  have shorter: "0 < k \<Longrightarrow> s \<noteq> [] \<Longrightarrow> length (snd (fgets_chars k s)) < length s" for k s
  proof (induction k s rule: fgets_chars.induct)
    case (3 k c s)
    then show ?case
      by (cases k; cases s) (auto simp: less_Suc_eq)
  qed simp_all
  show "((rest, lb @ [parse_line buf]), (stream, lb)) \<in> measure (\<lambda>(stream, lb). length stream)"
    using shorter [of 1023 stream] ne rest by simp
qed

declare load_lines.simps [simp del]

definition load_tasks_from_file :: "app \<Rightarrow> app" where
  "load_tasks_from_file w =
     (case tasks_txt w of
        None \<Rightarrow>
          w\<lparr>console := console w @
              [G_print (''No 'tasks.txt' found. Starting with an empty list.'' @ [newline])]\<rparr>
      | Some stream \<Rightarrow> w\<lparr>list_box := load_lines stream (list_box w)\<rparr>)"

text \<open>
  \<^verbatim>\<open>activate\<close>: the list box is created empty and filled from the file. The arguments
  are the file system the program starts in.
\<close>

definition activate :: "string option \<Rightarrow> bool \<Rightarrow> app" where
  "activate file_contents writable =
     load_tasks_from_file
       \<lparr>list_box = [], entry = [], tasks_txt = file_contents, fopen_w_ok = writable,
        console = [], saves = 0\<rparr>"

subsection \<open>The callbacks\<close>

definition on_add_button_clicked :: "app \<Rightarrow> app" where
  "on_add_button_clicked w =
     (let text_arg = entry w in
      if length text_arg > 0
      then save_tasks_to_file
             (w\<lparr>list_box := list_box w @ [create_list_item text_arg False], entry := []\<rparr>)
      else w)"

text \<open>
  \<^verbatim>\<open>gtk_container_remove(list_box, row)\<close> takes the row out of the list box. Rows are
  values here, and the selection is part of the value, so the row taken out is the first
  one equal to it.
\<close>

definition gtk_list_box_get_selected_rows :: "row list \<Rightarrow> row list" where
  "gtk_list_box_get_selected_rows lb = filter row_selected lb"

definition gtk_container_remove :: "row list \<Rightarrow> row \<Rightarrow> row list" where
  "gtk_container_remove lb r = remove1 r lb"

text \<open>The for loop of \<^verbatim>\<open>on_remove_button_clicked\<close> over the selected rows.\<close>

fun remove_rows :: "row list \<Rightarrow> row list \<Rightarrow> row list" where
  "remove_rows [] lb = lb"
| "remove_rows (r # iter) lb = remove_rows iter (gtk_container_remove lb r)"

definition on_remove_button_clicked :: "app \<Rightarrow> app" where
  "on_remove_button_clicked w =
     (let selected_rows = gtk_list_box_get_selected_rows (list_box w) in
      if selected_rows \<noteq> []
      then save_tasks_to_file (w\<lparr>list_box := remove_rows selected_rows (list_box w)\<rparr>)
      else w)"

text \<open>
  \<^verbatim>\<open>on_check_button_toggled\<close> for the check button of the row at index \<open>i\<close>: the label's
  CSS class follows the button's state, and the list is saved. The callback is connected
  to the check button of a row when the row is created, so it runs for the index of a row
  only.
\<close>

definition on_check_button_toggled :: "nat \<Rightarrow> app \<Rightarrow> app" where
  "on_check_button_toggled i w =
     (let r = list_box w ! i in
      save_tasks_to_file
        (w\<lparr>list_box := (list_box w)[i := r\<lparr>label_completed := check_active r\<rparr>]\<rparr>))"

text \<open>
  The user clicks the check button of the row at index \<open>i\<close>: GTK flips the button's state
  and then emits "toggled", which runs the callback. There is no such button when \<open>i\<close>
  is not the index of a row.
\<close>

definition check_button_clicked :: "nat \<Rightarrow> app \<Rightarrow> app option" where
  "check_button_clicked i w =
     (if i < length (list_box w)
      then let r = list_box w ! i in
           Some (on_check_button_toggled i
                   (w\<lparr>list_box := (list_box w)[i := r\<lparr>check_active := \<not> check_active r\<rparr>]\<rparr>))
      else None)"

definition on_window_destroy :: "app \<Rightarrow> app" where
  "on_window_destroy w = save_tasks_to_file w"

subsection \<open>Notions of the specification\<close>

text \<open>Stripping a trailing newline: the last character goes if it is a newline.\<close>

definition strip_trailing_newline :: "string \<Rightarrow> string" where
  "strip_trailing_newline s = (if s \<noteq> [] \<and> last s = newline then butlast s else s)"

text \<open>The buffers that the loop of \<^verbatim>\<open>load_tasks_from_file\<close> reads from a stream, in order.\<close>

function lines_read :: "string \<Rightarrow> string list" where
  "lines_read stream =
     (case fgets 1024 stream of
        None \<Rightarrow> []
      | Some (buf, rest) \<Rightarrow> buf # lines_read rest)"
  by pat_completeness auto
termination
proof (relation "measure length")
  show "wf (measure length)" by simp
next
  fix stream :: string and x2 buf rest
  assume "fgets 1024 stream = Some x2" and "(buf, rest) = x2"
  then have ne: "stream \<noteq> []" and rest: "rest = snd (fgets_chars 1023 stream)"
    by (auto simp: fgets_def split: if_splits)
  have shorter: "0 < k \<Longrightarrow> s \<noteq> [] \<Longrightarrow> length (snd (fgets_chars k s)) < length s" for k s
  proof (induction k s rule: fgets_chars.induct)
    case (3 k c s)
    then show ?case
      by (cases k; cases s) (auto simp: less_Suc_eq)
  qed simp_all
  show "(rest, stream) \<in> measure length"
    using shorter [of 1023 stream] ne rest by simp
qed

declare lines_read.simps [simp del]

text \<open>
  The leading integer of a string, as the specification reads a flag: after any white
  space, an optional sign and the decimal number that the digits up to the first other
  character write; 0 when there is no digit.
\<close>

definition decimal_number :: "string \<Rightarrow> int" where
  "decimal_number ds = foldl (\<lambda>n c. 10 * n + (of_char c - 48)) 0 ds"

definition leading_integer :: "string \<Rightarrow> int" where
  "leading_integer s =
     (let t = dropWhile isspace s in
      if t \<noteq> [] \<and> hd t = CHR ''-'' then - decimal_number (takeWhile isdigit (tl t))
      else if t \<noteq> [] \<and> hd t = CHR ''+'' then decimal_number (takeWhile isdigit (tl t))
      else decimal_number (takeWhile isdigit t))"

text \<open>The invariant of the data model: a text that is not empty and holds neither a newline
  nor the separator.\<close>

definition task_invariant :: "task \<Rightarrow> bool" where
  "task_invariant t =
     (task_text t \<noteq> [] \<and> newline \<notin> set (task_text t) \<and> semicolon \<notin> set (task_text t))"

text \<open>What \<^verbatim>\<open>save_tasks_to_file\<close> writes for a list box: one line per row, in order.\<close>

definition file_of :: "row list \<Rightarrow> string" where
  "file_of lb = concat (map (\<lambda>r. fprintf_task (check_active r) (label_text r)) lb)"

subsection \<open>Example states\<close>

text \<open>
  The running program with the given rows and entry text, before anything was saved: no
  file yet, in a directory where the file can be written.
\<close>

definition app_with :: "row list \<Rightarrow> string \<Rightarrow> app" where
  "app_with lb entry_text =
     \<lparr>list_box = lb, entry = entry_text, tasks_txt = None, fopen_w_ok = True,
      console = [], saves = 0\<rparr>"

text \<open>A row that the user has selected in the list box.\<close>

definition select_row :: "row \<Rightarrow> row" where
  "select_row r = r\<lparr>row_selected := True\<rparr>"

section \<open>Properties of the loops and of the C library functions\<close>

lemma app_with_fields [simp]:
  "list_box (app_with lb e) = lb"
  "entry (app_with lb e) = e"
  "tasks_txt (app_with lb e) = None"
  "fopen_w_ok (app_with lb e)"
  "console (app_with lb e) = []"
  "saves (app_with lb e) = 0"
  by (simp_all add: app_with_def)


lemma save_rows_eq:
  "save_rows lb i out = out @ file_of (drop i lb)"
proof (induction lb i out rule: save_rows.induct)
  case (1 lb i out)
  show ?case
  proof (cases "i < length lb")
    case True
    then have "drop i lb = lb ! i # drop (Suc i) lb"
      by (simp add: Cons_nth_drop_Suc)
    with True 1 show ?thesis
      by (subst save_rows.simps) (simp add: gtk_list_box_get_row_at_index_def file_of_def)
  next
    case False
    then show ?thesis
      by (subst save_rows.simps) (simp add: gtk_list_box_get_row_at_index_def file_of_def)
  qed
qed

lemma load_lines_eq: "load_lines stream lb = lb @ map parse_line (lines_read stream)"
proof (induction stream lb rule: load_lines.induct)
  case (1 stream lb)
  show ?case
  proof (cases "fgets 1024 stream")
    case None
    then show ?thesis
      by (subst load_lines.simps, subst lines_read.simps) simp
  next
    case (Some p)
    obtain buf rest where p: "p = (buf, rest)" by (cases p)
    from 1 [OF Some p [symmetric]] Some p show ?thesis
      by (subst load_lines.simps, subst lines_read.simps) simp
  qed
qed

lemma fgets_chars_line:
  "newline \<notin> set xs \<Longrightarrow> length xs < k \<Longrightarrow>
   fgets_chars k (xs @ newline # ys) = (xs @ [newline], ys)"
proof (induction xs arbitrary: k)
  case Nil
  then show ?case by (cases k) simp_all
next
  case (Cons x xs)
  then show ?case by (cases k) auto
qed

lemma fgets_chars_full:
  "newline \<notin> set xs \<Longrightarrow> length xs = k \<Longrightarrow> fgets_chars k (xs @ ys) = (xs, ys)"
proof (induction xs arbitrary: k)
  case Nil
  then show ?case by simp
next
  case (Cons x xs)
  then show ?case by (cases k) auto
qed

lemma fgets_chars_eof:
  "newline \<notin> set xs \<Longrightarrow> length xs \<le> k \<Longrightarrow> fgets_chars k xs = (xs, [])"
proof (induction xs arbitrary: k)
  case Nil
  then show ?case by (cases k) simp_all
next
  case (Cons x xs)
  then show ?case by (cases k) auto
qed

lemma fgets_chars_length: "length (fst (fgets_chars k s)) \<le> k"
  by (induction k s rule: fgets_chars.induct) simp_all

lemma fgets_chars_newline_last: "newline \<notin> set (butlast (fst (fgets_chars k s)))"
  by (induction k s rule: fgets_chars.induct) auto

lemmas atoi_eval =
  atoi_def strtol_def saturate_long_def int_of_long_def LONG_MAX_def LONG_MIN_def
  isspace_def isdigit_def

lemma atoi_flag: "atoi ''1'' = 1" "atoi ''0'' = 0"
  by (simp_all add: atoi_eval)

lemma digits_value_foldl:
  "digits_value acc s = foldl (\<lambda>n c. 10 * n + (of_char c - 48)) acc (takeWhile isdigit s)"
  by (induction s arbitrary: acc) (simp_all add: mult.commute)

lemma strtol_leading_integer: "strtol s = saturate_long (leading_integer s)"
proof (cases "dropWhile isspace s")
  case Nil
  have "strtol s = 0"
    by (simp only: strtol_def Nil list.case)
  moreover have "leading_integer s = 0"
    by (simp only: leading_integer_def Nil Let_def) (simp add: decimal_number_def)
  ultimately show ?thesis
    by (simp add: saturate_long_def LONG_MAX_def LONG_MIN_def)
next
  case (Cons c cs)
  then show ?thesis
    by (simp add: strtol_def leading_integer_def decimal_number_def digits_value_foldl)
qed

lemma atoi_leading_integer: "atoi s = int_of_long (saturate_long (leading_integer s))"
  by (simp add: atoi_def strtol_leading_integer)

lemma int_of_long_in_range: "INT_MIN \<le> v \<Longrightarrow> v \<le> INT_MAX \<Longrightarrow> int_of_long v = v"
  by (simp add: int_of_long_def INT_MIN_def INT_MAX_def)

lemma saturate_long_in_range: "INT_MIN \<le> v \<Longrightarrow> v \<le> INT_MAX \<Longrightarrow> saturate_long v = v"
  by (simp add: saturate_long_def INT_MIN_def INT_MAX_def LONG_MIN_def LONG_MAX_def)

lemma atoi_in_range:
  "INT_MIN \<le> leading_integer s \<Longrightarrow> leading_integer s \<le> INT_MAX \<Longrightarrow>
   atoi s = leading_integer s"
  by (simp add: atoi_leading_integer saturate_long_in_range int_of_long_in_range)

lemma strchr_first:
  "c \<notin> set xs \<Longrightarrow> strchr (xs @ c # ys) c = Some (length xs)"
  by (induction xs) (auto simp: strchr_def)

lemma strchr_none: "c \<notin> set xs \<Longrightarrow> strchr xs c = None"
  by (simp add: strchr_def)

lemma cut_newline_line: "newline \<notin> set xs \<Longrightarrow> cut_newline (xs @ newline # ys) = xs"
  by (simp add: cut_newline_def strchr_first)

lemma cut_newline_none: "newline \<notin> set xs \<Longrightarrow> cut_newline xs = xs"
  by (simp add: cut_newline_def strchr_none)

lemma cstr_id: "NUL \<notin> set xs \<Longrightarrow> cstr xs = xs"
  by (induction xs) (auto simp: cstr_def)

lemma parse_line_fprintf:
  assumes "newline \<notin> set t" and "NUL \<notin> set t"
  shows "parse_line (fprintf_task b t) = create_list_item t b"
proof -
  let ?flag = "if b then ''1'' else ''0''"
  have line: "fprintf_task b t = ?flag @ semicolon # (t @ [newline])"
    by (simp add: fprintf_task_def)
  have "NUL \<notin> set (fprintf_task b t)"
    using assms by (simp add: fprintf_task_def)
  then have c: "cstr (fprintf_task b t) = ?flag @ semicolon # (t @ [newline])"
    by (simp add: cstr_id line)
  have s: "strchr (?flag @ semicolon # (t @ [newline])) semicolon = Some 1"
    by (simp add: strchr_def)
  have "atoi ?flag = (if b then 1 else 0)"
    by (simp add: atoi_flag)
  then show ?thesis
    using assms by (simp add: parse_line_def c s cut_newline_line)
qed

lemma fgets_fprintf:
  assumes "newline \<notin> set t" and "length t \<le> 1020"
  shows "fgets 1024 (fprintf_task b t @ rest) = Some (fprintf_task b t, rest)"
proof -
  let ?xs = "(if b then ''1'' else ''0'') @ [semicolon] @ t"
  have "fgets_chars 1023 (?xs @ newline # rest) = (?xs @ [newline], rest)"
    using assms by (intro fgets_chars_line) auto
  then show ?thesis
    by (simp add: fgets_def fprintf_task_def)
qed

lemma lines_read_saved:
  assumes "\<forall>r \<in> set rs. newline \<notin> set (label_text r) \<and> length (label_text r) \<le> 1020"
  shows "lines_read (file_of rs) =
         map (\<lambda>r. fprintf_task (check_active r) (label_text r)) rs"
  using assms
proof (induction rs)
  case Nil
  show ?case by (subst lines_read.simps) (simp add: fgets_def file_of_def)
next
  case (Cons r rs)
  then have "lines_read (file_of rs) = map (\<lambda>r. fprintf_task (check_active r) (label_text r)) rs"
    by simp
  moreover have "fgets 1024 (file_of (r # rs)) =
      Some (fprintf_task (check_active r) (label_text r), file_of rs)"
    using Cons.prems by (simp add: file_of_def fgets_fprintf)
  ultimately show ?case
    by (subst lines_read.simps) simp
qed

lemma lines_read_Nil: "lines_read [] = []"
  by (subst lines_read.simps) (simp add: fgets_def)

lemma lines_read_line:
  "newline \<notin> set xs \<Longrightarrow> length xs < 1023 \<Longrightarrow>
   lines_read (xs @ newline # ys) = (xs @ [newline]) # lines_read ys"
  by (subst lines_read.simps) (simp add: fgets_def fgets_chars_line)

lemma lines_read_full:
  "newline \<notin> set xs \<Longrightarrow> length xs = 1023 \<Longrightarrow> lines_read (xs @ ys) = xs # lines_read ys"
  by (subst lines_read.simps) (auto simp: fgets_def fgets_chars_full)

lemma lines_read_last:
  "newline \<notin> set xs \<Longrightarrow> xs \<noteq> [] \<Longrightarrow> length xs \<le> 1023 \<Longrightarrow> lines_read xs = [xs]"
  by (subst lines_read.simps) (simp add: fgets_def fgets_chars_eof lines_read_Nil)

lemma save_tasks_to_file_ok:
  "fopen_w_ok w \<Longrightarrow>
   save_tasks_to_file w = w\<lparr>tasks_txt := Some (file_of (list_box w)), saves := saves w + 1\<rparr>"
  by (simp add: save_tasks_to_file_def save_rows_eq)

lemma roundtrip_rows:
  assumes "\<forall>r \<in> set lb. newline \<notin> set (label_text r) \<and> NUL \<notin> set (label_text r) \<and>
             length (label_text r) \<le> 1020"
  shows "map task_of (load_lines (file_of lb) []) = map task_of lb"
proof -
  have "lines_read (file_of lb) = map (\<lambda>r. fprintf_task (check_active r) (label_text r)) lb"
    using assms by (intro lines_read_saved) simp
  then have "load_lines (file_of lb) [] =
      map (\<lambda>r. parse_line (fprintf_task (check_active r) (label_text r))) lb"
    by (simp add: load_lines_eq comp_def)
  also have "map task_of \<dots> = map task_of lb"
    using assms by (simp add: parse_line_fprintf create_list_item_def task_of_def)
  finally show ?thesis .
qed

lemma save_tasks_to_file_fields:
  "list_box (save_tasks_to_file w) = list_box w"
  "entry (save_tasks_to_file w) = entry w"
  "fopen_w_ok (save_tasks_to_file w) = fopen_w_ok w"
  "saves (save_tasks_to_file w) = saves w + 1"
  "tasks_txt (save_tasks_to_file w) =
     (if fopen_w_ok w then Some (file_of (list_box w)) else tasks_txt w)"
  "console (save_tasks_to_file w) =
     (if fopen_w_ok w then console w
      else console w @ [G_warning ''Could not open file 'tasks.txt' for writing.''])"
  by (simp_all add: save_tasks_to_file_def save_rows_eq)

lemma tasks_save [simp]: "tasks (save_tasks_to_file w) = tasks w"
  by (simp add: tasks_def save_tasks_to_file_fields)

lemma check_button_clicked_list_box:
  assumes "i < length (list_box w)"
  shows "\<exists>w'. check_button_clicked i w = Some w' \<and>
    list_box w' =
      (list_box w)[i := (list_box w ! i)
         \<lparr>check_active := \<not> check_active (list_box w ! i),
          label_completed := \<not> check_active (list_box w ! i)\<rparr>]"
  using assms
  by (simp add: check_button_clicked_def on_check_button_toggled_def Let_def
      save_tasks_to_file_fields)

lemma remove_rows_filter_aux:
  "\<forall>p \<in> set pre. \<not> P p \<Longrightarrow>
   remove_rows (filter P xs) (pre @ xs) = pre @ filter (\<lambda>r. \<not> P r) xs"
proof (induction xs arbitrary: pre)
  case Nil
  then show ?case by simp
next
  case (Cons x xs)
  show ?case
  proof (cases "P x")
    case True
    with Cons.prems have "x \<notin> set pre" by auto
    then have "remove1 x (pre @ x # xs) = pre @ xs"
      by (simp add: remove1_append)
    with True Cons.IH [OF Cons.prems] show ?thesis
      by (simp add: gtk_container_remove_def)
  next
    case False
    with Cons.prems have "\<forall>p \<in> set (pre @ [x]). \<not> P p" by simp
    from Cons.IH [OF this] False show ?thesis by simp
  qed
qed

lemma remove_rows_selected:
  "remove_rows (gtk_list_box_get_selected_rows lb) lb = filter (\<lambda>r. \<not> row_selected r) lb"
  using remove_rows_filter_aux [of "[]" row_selected lb]
  by (simp add: gtk_list_box_get_selected_rows_def)

lemma cut_newline_takeWhile: "cut_newline s = takeWhile (\<lambda>c. c \<noteq> newline) s"
proof (cases "newline \<in> set s")
  case True
  have "take (length (takeWhile (\<lambda>c. c \<noteq> newline) s)) s = takeWhile (\<lambda>c. c \<noteq> newline) s"
    by (metis append_eq_conv_conj takeWhile_dropWhile_id)
  with True show ?thesis
    by (simp add: cut_newline_def strchr_def)
next
  case False
  then have "takeWhile (\<lambda>c. c \<noteq> newline) s = s"
    by (intro takeWhile_eq_all_conv [THEN iffD2]) auto
  with False show ?thesis
    by (metis cut_newline_none)
qed

lemma parse_line_no_newline: "newline \<notin> set (label_text (parse_line buf))"
proof -
  have "newline \<notin> set (cut_newline s)" for s
    by (auto simp: cut_newline_takeWhile dest: set_takeWhileD)
  then show ?thesis
    by (simp add: parse_line_def Let_def create_list_item_def split: option.split)
qed

lemma load_lines_no_newline:
  "r \<in> set (load_lines stream []) \<Longrightarrow> newline \<notin> set (label_text r)"
  by (auto simp: load_lines_eq parse_line_no_newline)

lemma task_invariant_after_toggle:
  assumes "check_button_clicked i w = Some w'" and "t \<in> set (tasks w')"
  shows "\<exists>u \<in> set (tasks w). task_text u = task_text t"
proof -
  from assms(1) have i: "i < length (list_box w)"
    by (simp add: check_button_clicked_def split: if_splits)
  from check_button_clicked_list_box [OF i] assms(1) have
    l: "list_box w' =
      (list_box w)[i := (list_box w ! i)
         \<lparr>check_active := \<not> check_active (list_box w ! i),
          label_completed := \<not> check_active (list_box w ! i)\<rparr>]"
    by simp
  from assms(2) obtain r where r: "r \<in> set (list_box w')" and t: "t = task_of r"
    by (auto simp: tasks_def)
  from r l have "r \<in> set (list_box w) \<or>
      r = (list_box w ! i)\<lparr>check_active := \<not> check_active (list_box w ! i),
                     label_completed := \<not> check_active (list_box w ! i)\<rparr>"
    by (auto dest: set_update_subset_insert [THEN subsetD])
  then show ?thesis
  proof
    assume "r \<in> set (list_box w)"
    then show ?thesis using t by (auto simp: tasks_def)
  next
    assume "r = (list_box w ! i)\<lparr>check_active := \<not> check_active (list_box w ! i),
                     label_completed := \<not> check_active (list_box w ! i)\<rparr>"
    then have "task_text t = task_text (task_of (list_box w ! i))"
      using t by (simp add: task_of_def)
    moreover have "task_of (list_box w ! i) \<in> set (tasks w)"
      using i by (simp add: tasks_def)
    ultimately show ?thesis by metis
  qed
qed

lemma tasks_after_remove: "set (tasks (on_remove_button_clicked w)) \<subseteq> set (tasks w)"
  by (auto simp: on_remove_button_clicked_def Let_def tasks_def save_tasks_to_file_fields
      remove_rows_selected)

lemma parse_line_simple_eval:
  "task_of (parse_line (''0;a;b'' @ [newline])) = \<lparr>task_text = ''a;b'', task_completed = False\<rparr>"
  "task_of (parse_line [newline]) = \<lparr>task_text = [], task_completed = False\<rparr>"
  by (simp_all add: parse_line_def cstr_def strchr_def cut_newline_def atoi_eval task_of_def
      create_list_item_def)

lemma tasks_activate:
  "tasks (activate (Some stream) writable) = map (task_of \<circ> parse_line) (lines_read stream)"
  by (simp add: activate_def load_tasks_from_file_def tasks_def load_lines_eq)

lemma lines_read_unfold:
  "lines_read stream =
     (if stream = [] then []
      else fst (fgets_chars 1023 stream) # lines_read (snd (fgets_chars 1023 stream)))"
  by (subst lines_read.simps) (simp add: fgets_def split_beta)

lemma lines_read_buffer:
  "buf \<in> set (lines_read stream) \<Longrightarrow> \<exists>s. buf = fst (fgets_chars 1023 s)"
proof (induction stream rule: lines_read.induct)
  case (1 stream)
  show ?case
  proof (cases "stream = []")
    case True
    with "1.prems" show ?thesis
      by (simp add: lines_read_Nil)
  next
    case False
    then have f: "fgets 1024 stream = Some (fgets_chars 1023 stream)"
      by (simp add: fgets_def)
    from "1.prems" False have "buf = fst (fgets_chars 1023 stream) \<or>
        buf \<in> set (lines_read (snd (fgets_chars 1023 stream)))"
      by (subst (asm) lines_read_unfold) simp
    then show ?thesis
    proof
      assume "buf = fst (fgets_chars 1023 stream)"
      then show ?thesis by blast
    next
      assume "buf \<in> set (lines_read (snd (fgets_chars 1023 stream)))"
      then show ?thesis
        by (rule "1.IH" [OF f prod.collapse])
    qed
  qed
qed

lemma lines_read_newline_last:
  "buf \<in> set (lines_read stream) \<Longrightarrow> newline \<notin> set (butlast buf)"
  using fgets_chars_newline_last by (auto dest!: lines_read_buffer)

lemma lines_read_length:
  "buf \<in> set (lines_read stream) \<Longrightarrow> length buf \<le> 1023"
  using fgets_chars_length by (auto dest!: lines_read_buffer)

lemma cut_newline_strip:
  assumes "newline \<notin> set (butlast s)"
  shows "cut_newline s = strip_trailing_newline s"
proof (cases "s \<noteq> [] \<and> last s = newline")
  case True
  then have "s = butlast s @ newline # []"
    by (metis append_butlast_last_id)
  then have "cut_newline s = butlast s"
    using cut_newline_line [OF assms, of "[]"] by simp
  with True show ?thesis
    by (simp add: strip_trailing_newline_def)
next
  case False
  then have "newline \<notin> set s"
    using assms by (cases s rule: rev_cases) auto
  with False show ?thesis
    by (auto simp: strip_trailing_newline_def cut_newline_none)
qed

lemma butlast_cstr: "newline \<notin> set (butlast buf) \<Longrightarrow> newline \<notin> set (butlast (cstr buf))"
proof -
  assume a: "newline \<notin> set (butlast buf)"
  have buf: "buf = cstr buf @ dropWhile (\<lambda>c. c \<noteq> NUL) buf"
    by (simp add: cstr_def)
  show ?thesis
  proof (cases "dropWhile (\<lambda>c. c \<noteq> NUL) buf = []")
    case True
    with buf a show ?thesis by simp
  next
    case False
    then have "butlast buf = cstr buf @ butlast (dropWhile (\<lambda>c. c \<noteq> NUL) buf)"
      by (metis buf butlast_append)
    with a have "newline \<notin> set (cstr buf)"
      by (metis Un_iff set_append)
    then show ?thesis
      by (meson in_set_butlastD)
  qed
qed

lemma butlast_rest:
  "newline \<notin> set (butlast (pre @ c # rest)) \<Longrightarrow> newline \<notin> set (butlast rest)"
  by (cases rest rule: rev_cases) (auto simp: butlast_append)

lemma parse_line_separator:
  assumes "cstr buf = pre @ semicolon # rest" and "semicolon \<notin> set pre"
  shows "parse_line buf = create_list_item (cut_newline rest) (atoi pre = 1)"
  using assms by (simp add: parse_line_def strchr_first)

lemma parse_line_no_separator:
  assumes "semicolon \<notin> set (cstr buf)"
  shows "parse_line buf = create_list_item (cut_newline (cstr buf)) False"
  using assms by (simp add: parse_line_def strchr_none)

lemma long_line_load:
  "lines_read ((''1;'' @ replicate 1022 (CHR ''x'')) @ [newline]) =
       [''1;'' @ replicate 1021 (CHR ''x''), ''x'' @ [newline]]
   \<and> tasks (activate (Some ((''1;'' @ replicate 1022 (CHR ''x'')) @ [newline])) writable) =
       [\<lparr>task_text = replicate 1021 (CHR ''x''), task_completed = True\<rparr>,
        \<lparr>task_text = ''x'', task_completed = False\<rparr>]"
proof -
  let ?t = "replicate 1021 (CHR ''x'')"
  have r: "replicate 1022 (CHR ''x'') = ?t @ ''x''"
    using replicate_add [of 1021 1 "CHR ''x''"] by simp
  have e: "(''1;'' @ replicate 1022 (CHR ''x'')) @ [newline] = (''1;'' @ ?t) @ (''x'' @ [newline])"
    by (simp add: r)
  have "lines_read (''x'' @ [newline]) = [''x'' @ [newline]]"
    using lines_read_line [of "''x''" "[]"] by (simp add: lines_read_Nil)
  moreover have "lines_read ((''1;'' @ ?t) @ (''x'' @ [newline])) =
      (''1;'' @ ?t) # lines_read (''x'' @ [newline])"
    by (rule lines_read_full) simp_all
  ultimately have l: "lines_read ((''1;'' @ replicate 1022 (CHR ''x'')) @ [newline]) =
       [''1;'' @ ?t, ''x'' @ [newline]]"
    by (simp only: e)
  have c: "cstr (CHR ''1'' # semicolon # ?t) = CHR ''1'' # semicolon # ?t"
    by (intro cstr_id) simp
  have s: "strchr (CHR ''1'' # semicolon # ?t) semicolon = Some 1"
    using strchr_first [of semicolon "''1''" ?t] by simp
  have n: "cut_newline ?t = ?t"
    by (intro cut_newline_none) simp
  have p1: "task_of (parse_line (''1;'' @ ?t)) = \<lparr>task_text = ?t, task_completed = True\<rparr>"
    by (simp add: parse_line_def c s n task_of_def create_list_item_def atoi_flag)
  have p2: "task_of (parse_line (''x'' @ [newline])) = \<lparr>task_text = ''x'', task_completed = False\<rparr>"
    by (simp add: parse_line_def cstr_def strchr_def cut_newline_def task_of_def
        create_list_item_def)
  have t: "tasks (activate (Some ((''1;'' @ replicate 1022 (CHR ''x'')) @ [newline])) writable) =
       [\<lparr>task_text = ?t, task_completed = True\<rparr>, \<lparr>task_text = ''x'', task_completed = False\<rparr>]"
    using p1 p2 by (simp only: tasks_activate l) simp
  show ?thesis
    using l t by simp
qed

section \<open>The format of a line\<close>

text \<open>
  Claim C4, amended. The lines that loading reads are the buffers filled by \<^verbatim>\<open>fgets\<close>,
  each at most 1023 characters long and taken as a C string; a longer line of the file is
  read in several buffers, each a line of its own. For every such line: if it splits at
  its first separator \<open>;\<close> into a prefix and a remainder, the task is completed exactly
  when the leading integer of the prefix, cut to the range of a 64-bit \<^verbatim>\<open>long\<close> and then
  reduced to a 32-bit \<^verbatim>\<open>int\<close> as \<^verbatim>\<open>atoi\<close> does, is 1; when the leading integer is in
  the range of \<^verbatim>\<open>int\<close>, that is exactly when it is 1. The text is the remainder with the
  trailing newline stripped. If the line holds no separator, the text is the whole line
  with the trailing newline stripped and the task is not completed. The tasks loaded are
  those of the lines read, in order, after the tasks already in the list box.
\<close>

theorem load_line_parse:
  assumes "buf \<in> set (lines_read stream)"
  shows "length buf \<le> 1023
    \<and> (cstr buf = pre @ semicolon # rest \<and> semicolon \<notin> set pre \<longrightarrow>
            task_of (parse_line buf) =
              \<lparr>task_text = strip_trailing_newline rest,
               task_completed = (int_of_long (saturate_long (leading_integer pre)) = 1)\<rparr>)
    \<and> (cstr buf = pre @ semicolon # rest \<and> semicolon \<notin> set pre \<and>
         INT_MIN \<le> leading_integer pre \<and> leading_integer pre \<le> INT_MAX \<longrightarrow>
            task_completed (task_of (parse_line buf)) = (leading_integer pre = 1))
    \<and> (semicolon \<notin> set (cstr buf) \<longrightarrow>
            task_of (parse_line buf) =
              \<lparr>task_text = strip_trailing_newline (cstr buf), task_completed = False\<rparr>)
    \<and> (tasks_txt w = Some stream \<longrightarrow>
            tasks (load_tasks_from_file w) =
              tasks w @ map (task_of \<circ> parse_line) (lines_read stream))"
proof (intro conjI impI)
  show "length buf \<le> 1023"
    using assms by (rule lines_read_length)
  have nl: "newline \<notin> set (butlast (cstr buf))"
    using assms by (intro butlast_cstr lines_read_newline_last)
  {
    assume a: "cstr buf = pre @ semicolon # rest \<and> semicolon \<notin> set pre"
    then have "newline \<notin> set (butlast rest)"
      using nl butlast_rest [of pre semicolon rest] by simp
    then have "cut_newline rest = strip_trailing_newline rest"
      by (rule cut_newline_strip)
    with a show "task_of (parse_line buf) =
        \<lparr>task_text = strip_trailing_newline rest,
         task_completed = (int_of_long (saturate_long (leading_integer pre)) = 1)\<rparr>"
      by (simp add: parse_line_separator task_of_def create_list_item_def
          atoi_leading_integer)
  }
  {
    assume a: "cstr buf = pre @ semicolon # rest \<and> semicolon \<notin> set pre \<and>
         INT_MIN \<le> leading_integer pre \<and> leading_integer pre \<le> INT_MAX"
    then have "atoi pre = leading_integer pre"
      by (simp add: atoi_in_range)
    with a show "task_completed (task_of (parse_line buf)) = (leading_integer pre = 1)"
      by (simp add: parse_line_separator task_of_def create_list_item_def)
  }
  {
    assume "semicolon \<notin> set (cstr buf)"
    then show "task_of (parse_line buf) =
        \<lparr>task_text = strip_trailing_newline (cstr buf), task_completed = False\<rparr>"
      using cut_newline_strip [OF nl]
      by (simp add: parse_line_no_separator task_of_def create_list_item_def)
  }
  {
    assume "tasks_txt w = Some stream"
    then show "tasks (load_tasks_from_file w) =
        tasks w @ map (task_of \<circ> parse_line) (lines_read stream)"
      by (simp add: load_tasks_from_file_def tasks_def load_lines_eq)
  }
qed

text \<open>
  C4, amended, on a file of two lines: "1;finish report" loads as a completed task with
  the text "finish report", and "hello world", which has no separator, as an open task.
\<close>

theorem load_line_parse_witness:
  "lines_read (''1;finish report'' @ [newline] @ ''hello world'') =
      [''1;finish report'' @ [newline], ''hello world'']
   \<and> cstr (''1;finish report'' @ [newline]) = ''1'' @ semicolon # (''finish report'' @ [newline])
   \<and> semicolon \<notin> set ''1''
   \<and> leading_integer ''1'' = 1
   \<and> INT_MIN \<le> leading_integer ''1''
   \<and> leading_integer ''1'' \<le> INT_MAX
   \<and> strip_trailing_newline (''finish report'' @ [newline]) = ''finish report''
   \<and> task_of (parse_line (''1;finish report'' @ [newline])) =
        \<lparr>task_text = ''finish report'', task_completed = True\<rparr>
   \<and> semicolon \<notin> set (cstr ''hello world'')
   \<and> task_of (parse_line ''hello world'') =
        \<lparr>task_text = ''hello world'', task_completed = False\<rparr>
   \<and> tasks (load_tasks_from_file \<lparr>list_box = [], entry = [],
        tasks_txt = Some (''1;finish report'' @ [newline] @ ''hello world''),
        fopen_w_ok = True, console = [], saves = 0\<rparr>) =
      [\<lparr>task_text = ''finish report'', task_completed = True\<rparr>,
       \<lparr>task_text = ''hello world'', task_completed = False\<rparr>]"
proof -
  have "lines_read ''hello world'' = [''hello world'']"
    by (rule lines_read_last) simp_all
  then have l: "lines_read (''1;finish report'' @ [newline] @ ''hello world'') =
      [''1;finish report'' @ [newline], ''hello world'']"
    using lines_read_line [of "''1;finish report''" "''hello world''"] by simp
  have c:
    "cstr (''1;finish report'' @ [newline]) = ''1'' @ semicolon # (''finish report'' @ [newline])"
    "cstr ''hello world'' = ''hello world''"
    by (simp_all add: cstr_def)
  have s: "strip_trailing_newline (''finish report'' @ [newline]) = ''finish report''"
      "strip_trailing_newline ''hello world'' = ''hello world''"
    by (simp_all add: strip_trailing_newline_def)
  have v: "leading_integer ''1'' = 1"
    by (simp add: leading_integer_def decimal_number_def isspace_def isdigit_def)
  have r: "INT_MIN \<le> leading_integer ''1''" "leading_integer ''1'' \<le> INT_MAX"
    by (simp_all add: v INT_MIN_def INT_MAX_def)
  have m1: "''1;finish report'' @ [newline] \<in>
      set (lines_read (''1;finish report'' @ [newline] @ ''hello world''))"
    and m2: "''hello world'' \<in> set (lines_read (''1;finish report'' @ [newline] @ ''hello world''))"
    by (simp_all only: l) simp_all
  note p1 = load_line_parse [OF m1, of "''1''" "''finish report'' @ [newline]"]
  have t1: "task_of (parse_line (''1;finish report'' @ [newline])) =
        \<lparr>task_text = ''finish report'', task_completed = True\<rparr>"
    using p1 c(1) s(1) v r
    by (simp add: saturate_long_def int_of_long_def LONG_MAX_def LONG_MIN_def)
  have t2: "task_of (parse_line ''hello world'') =
        \<lparr>task_text = ''hello world'', task_completed = False\<rparr>"
    using load_line_parse [OF m2] c(2) s(2) by simp
  have t3: "tasks (load_tasks_from_file \<lparr>list_box = [], entry = [],
        tasks_txt = Some (''1;finish report'' @ [newline] @ ''hello world''),
        fopen_w_ok = True, console = [], saves = 0\<rparr>) =
      map (task_of \<circ> parse_line) (lines_read (''1;finish report'' @ [newline] @ ''hello world''))"
    using load_line_parse [OF m1, of _ _ "\<lparr>list_box = [], entry = [],
        tasks_txt = Some (''1;finish report'' @ [newline] @ ''hello world''),
        fopen_w_ok = True, console = [], saves = 0\<rparr>"]
    by (simp add: tasks_def)
  have t4: "map (task_of \<circ> parse_line)
        (lines_read (''1;finish report'' @ [newline] @ ''hello world'')) =
     [\<lparr>task_text = ''finish report'', task_completed = True\<rparr>,
       \<lparr>task_text = ''hello world'', task_completed = False\<rparr>]"
    using t1 t2 by (simp only: l) simp
  show ?thesis
    using l c s v r t1 t2 t3 t4 by simp
qed

text \<open>
  Claim C4 as stated fails in two places. The prefix "4294967297" has a leading integer
  that is not 1, yet \<^verbatim>\<open>atoi\<close> reduces it to the 32-bit value 1, and the line
  "4294967297;x" loads as a completed task. And a line of the file that is longer than
  the buffer is not one line for loading: of the line "1;" followed by 1022 times the
  letter x, the text loaded is not the remainder after the separator but its first 1021
  letters, and the last letter is a task of its own.
\<close>

theorem load_line_parse_counterexample:
  "lines_read (''4294967297;x'' @ [newline]) = [''4294967297;x'' @ [newline]]
   \<and> leading_integer ''4294967297'' = 4294967297
   \<and> atoi ''4294967297'' = 1
   \<and> tasks (activate (Some (''4294967297;x'' @ [newline])) True) =
       [\<lparr>task_text = ''x'', task_completed = True\<rparr>]
   \<and> tasks (activate (Some ((''1;'' @ replicate 1022 (CHR ''x'')) @ [newline])) True) =
       [\<lparr>task_text = replicate 1021 (CHR ''x''), task_completed = True\<rparr>,
        \<lparr>task_text = ''x'', task_completed = False\<rparr>]
   \<and> strip_trailing_newline (replicate 1022 (CHR ''x'') @ [newline]) \<noteq>
       replicate 1021 (CHR ''x'')"
proof -
  have l: "lines_read (''4294967297;x'' @ [newline]) = [''4294967297;x'' @ [newline]]"
    using lines_read_line [of "''4294967297;x''" "[]"] by (simp add: lines_read_Nil)
  have v: "leading_integer ''4294967297'' = 4294967297"
    by (simp add: leading_integer_def decimal_number_def isspace_def isdigit_def)
  have a: "atoi ''4294967297'' = 1"
    by (simp add: atoi_eval)
  have p: "task_of (parse_line (''4294967297;x'' @ [newline])) =
      \<lparr>task_text = ''x'', task_completed = True\<rparr>"
    by (simp add: parse_line_def cstr_def strchr_def cut_newline_def atoi_eval task_of_def
        create_list_item_def)
  have t: "tasks (activate (Some (''4294967297;x'' @ [newline])) True) =
       [\<lparr>task_text = ''x'', task_completed = True\<rparr>]"
    using p by (simp only: tasks_activate l) simp
  have k: "length (strip_trailing_newline (replicate 1022 (CHR ''x'') @ [newline])) = 1022"
    by (simp add: strip_trailing_newline_def)
  have n: "strip_trailing_newline (replicate 1022 (CHR ''x'') @ [newline]) \<noteq>
       replicate 1021 (CHR ''x'')"
  proof
    assume "strip_trailing_newline (replicate 1022 (CHR ''x'') @ [newline]) =
       replicate 1021 (CHR ''x'')"
    then have "length (strip_trailing_newline (replicate 1022 (CHR ''x'') @ [newline])) = 1021"
      by simp
    with k show False by simp
  qed
  show ?thesis
    using l v a t n long_line_load [of True] by simp
qed

text \<open>
  Claim C10. No buffer that loading reads is longer than 1023 characters. A file of a single
  line of 1024 characters before its newline, a flag, a separator and 1022 times the
  letter x, is read as two buffers and loads as two tasks: the first 1021 letters with
  the flag of the line, and the last letter as an open task of its own.
\<close>

theorem load_splits_long_line:
  "(\<forall>buf \<in> set (lines_read stream). length buf \<le> 1023)
   \<and> newline \<notin> set (''1;'' @ replicate 1022 (CHR ''x''))
   \<and> length (''1;'' @ replicate 1022 (CHR ''x'')) = 1024
   \<and> lines_read ((''1;'' @ replicate 1022 (CHR ''x'')) @ [newline]) =
       [''1;'' @ replicate 1021 (CHR ''x''), ''x'' @ [newline]]
   \<and> tasks (activate (Some ((''1;'' @ replicate 1022 (CHR ''x'')) @ [newline])) writable) =
       [\<lparr>task_text = replicate 1021 (CHR ''x''), task_completed = True\<rparr>,
        \<lparr>task_text = ''x'', task_completed = False\<rparr>]"
  using long_line_load [of writable] by (simp add: lines_read_length)

text \<open>
  The bound of C10 on the only buffer read from a file of two characters.
\<close>

theorem load_splits_long_line_witness:
  "''ab'' \<in> set (lines_read ''ab'') \<and> length ''ab'' \<le> 1023"
proof -
  have "lines_read ''ab'' = [''ab'']"
    by (rule lines_read_last) simp_all
  then have m: "''ab'' \<in> set (lines_read ''ab'')"
    by simp
  from load_splits_long_line [of "''ab''"] have "\<forall>buf \<in> set (lines_read ''ab''). length buf \<le> 1023"
    by (rule conjunct1)
  with m show ?thesis
    by blast
qed

section \<open>Saving and loading\<close>

text \<open>
  Claim C1, amended. For every list box whose file can be opened for writing and in which
  every task text holds no separator \<open>;\<close>, no newline and no NUL (a text is a C string)
  and is at most 1020 characters long, saving the list and starting the program on the
  resulting file gives the same tasks: the same number, in the same order, with the same
  texts and completion flags. A line is written as flag, separator, text and newline, and
  the line buffer takes 1023 characters, so 1020 is the longest text that comes back whole.
\<close>

theorem save_load_roundtrip:
  assumes "fopen_w_ok w"
    and "\<forall>t \<in> set (tasks w). semicolon \<notin> set (task_text t) \<and> newline \<notin> set (task_text t) \<and>
           NUL \<notin> set (task_text t) \<and> length (task_text t) \<le> 1020"
  shows "tasks (activate (tasks_txt (save_tasks_to_file w)) writable) = tasks w"
proof -
  have "\<forall>r \<in> set (list_box w). newline \<notin> set (label_text r) \<and> NUL \<notin> set (label_text r) \<and>
          length (label_text r) \<le> 1020"
    using assms(2) by (simp add: tasks_def task_of_def)
  then have "map task_of (load_lines (file_of (list_box w)) []) = map task_of (list_box w)"
    by (rule roundtrip_rows)
  then show ?thesis
    using assms(1)
    by (simp add: save_tasks_to_file_ok activate_def load_tasks_from_file_def tasks_def)
qed

text \<open>
  The round trip of C1 on a list of two tasks.
\<close>

theorem save_load_roundtrip_witness:
  "fopen_w_ok
     (app_with [create_list_item ''buy milk'' False, create_list_item ''finish report'' True] [])
   \<and> tasks (activate (tasks_txt (save_tasks_to_file
        (app_with [create_list_item ''buy milk'' False, create_list_item ''finish report'' True]
           []))) True)
     = [\<lparr>task_text = ''buy milk'', task_completed = False\<rparr>,
        \<lparr>task_text = ''finish report'', task_completed = True\<rparr>]"
  using save_load_roundtrip [of
     "app_with [create_list_item ''buy milk'' False, create_list_item ''finish report'' True] []"
     True]
  by (simp add: tasks_def task_of_def create_list_item_def)

text \<open>
  Claim C1 as stated fails on a long text. A task whose text is 1021 times the letter a
  holds no separator and no newline; its line is 1024 characters long with the newline, the
  buffer takes the first 1023, and the newline left over is read as a second task with an
  empty text.
\<close>

theorem save_load_long_text_counterexample:
  "semicolon \<notin> set (replicate 1021 (CHR ''a'')) \<and> newline \<notin> set (replicate 1021 (CHR ''a''))
   \<and> tasks (activate (tasks_txt (save_tasks_to_file
        (app_with [create_list_item (replicate 1021 (CHR ''a'')) False] []))) True)
     = [\<lparr>task_text = replicate 1021 (CHR ''a''), task_completed = False\<rparr>,
        \<lparr>task_text = [], task_completed = False\<rparr>]
   \<and> tasks (activate (tasks_txt (save_tasks_to_file
        (app_with [create_list_item (replicate 1021 (CHR ''a'')) False] []))) True)
     \<noteq> tasks (app_with [create_list_item (replicate 1021 (CHR ''a'')) False] [])"
proof -
  let ?t = "replicate 1021 (CHR ''a'')"
  have f: "file_of [create_list_item ?t False] = (''0;'' @ ?t) @ [newline]"
    by (simp add: file_of_def fprintf_task_def create_list_item_def)
  have "lines_read ((''0;'' @ ?t) @ [newline]) = (''0;'' @ ?t) # lines_read [newline]"
    by (rule lines_read_full) simp_all
  moreover have "lines_read [newline] = [[newline]]"
    using lines_read_line [of "[]" "[]"] by (simp add: lines_read_Nil)
  ultimately have l: "lines_read (file_of [create_list_item ?t False]) = [''0;'' @ ?t, [newline]]"
    by (simp only: f)
  have c: "cstr (CHR ''0'' # semicolon # ?t) = CHR ''0'' # semicolon # ?t"
    by (intro cstr_id) simp
  have s: "strchr (CHR ''0'' # semicolon # ?t) semicolon = Some 1"
    using strchr_first [of semicolon "''0''" ?t] by simp
  have n: "cut_newline ?t = ?t"
    by (intro cut_newline_none) simp
  have p1: "task_of (parse_line (''0;'' @ ?t)) = \<lparr>task_text = ?t, task_completed = False\<rparr>"
    by (simp add: parse_line_def c s n task_of_def create_list_item_def atoi_flag)
  have p2: "task_of (parse_line [newline]) = \<lparr>task_text = [], task_completed = False\<rparr>"
    by (simp add: parse_line_def cstr_def strchr_def cut_newline_def task_of_def
        create_list_item_def)
  have "tasks (activate (Some (file_of [create_list_item ?t False])) True) =
      [\<lparr>task_text = ?t, task_completed = False\<rparr>, \<lparr>task_text = [], task_completed = False\<rparr>]"
    using p1 p2 by (simp add: activate_def load_tasks_from_file_def tasks_def load_lines_eq l)
  then show ?thesis
    by (simp add: save_tasks_to_file_ok tasks_def)
qed

section \<open>Loading without a file\<close>

text \<open>
  Claim C7. If the file does not exist, so that it cannot be opened for reading, loading
  leaves the list box as it is and prints a note on the console; no warning is raised and
  nothing fails. The program starts with an empty list box, so it starts with no tasks.
\<close>

theorem load_missing_file:
  assumes "tasks_txt w = None"
  shows "list_box (load_tasks_from_file w) = list_box w
    \<and> console (load_tasks_from_file w) =
        console w @ [G_print (''No 'tasks.txt' found. Starting with an empty list.'' @ [newline])]
    \<and> tasks (activate None writable) = []"
  using assms by (simp add: load_tasks_from_file_def activate_def tasks_def)

text \<open>
  C7 at the first run of the program: no file, an empty list.
\<close>

theorem load_missing_file_witness:
  "tasks_txt (app_with [] []) = None
   \<and> list_box (load_tasks_from_file (app_with [] [])) = []
   \<and> tasks (activate None True) = []"
  using load_missing_file [of "app_with [] []" True]
  by simp

section \<open>A save that fails\<close>

text \<open>
  Claim C8. When the file cannot be opened for writing, saving logs a warning and returns:
  the list box and its tasks, the entry and the file are what they were.
\<close>

theorem save_failure_keeps_list:
  assumes "\<not> fopen_w_ok w"
  shows "console (save_tasks_to_file w) =
        console w @ [G_warning ''Could not open file 'tasks.txt' for writing.'']
    \<and> list_box (save_tasks_to_file w) = list_box w
    \<and> tasks (save_tasks_to_file w) = tasks w
    \<and> tasks_txt (save_tasks_to_file w) = tasks_txt w
    \<and> entry (save_tasks_to_file w) = entry w"
  using assms by (simp add: save_tasks_to_file_def tasks_def)

text \<open>
  C8 on a list of one task and a file that cannot be written.
\<close>

theorem save_failure_keeps_list_witness:
  "\<not> fopen_w_ok \<lparr>list_box = [create_list_item ''buy milk'' False], entry = [],
      tasks_txt = Some ''old'', fopen_w_ok = False, console = [], saves = 0\<rparr>
   \<and> console (save_tasks_to_file \<lparr>list_box = [create_list_item ''buy milk'' False], entry = [],
      tasks_txt = Some ''old'', fopen_w_ok = False, console = [], saves = 0\<rparr>) =
      [G_warning ''Could not open file 'tasks.txt' for writing.'']
   \<and> tasks (save_tasks_to_file \<lparr>list_box = [create_list_item ''buy milk'' False], entry = [],
      tasks_txt = Some ''old'', fopen_w_ok = False, console = [], saves = 0\<rparr>) =
      [\<lparr>task_text = ''buy milk'', task_completed = False\<rparr>]
   \<and> tasks_txt (save_tasks_to_file \<lparr>list_box = [create_list_item ''buy milk'' False], entry = [],
      tasks_txt = Some ''old'', fopen_w_ok = False, console = [], saves = 0\<rparr>) = Some ''old''"
  using save_failure_keeps_list [of "\<lparr>list_box = [create_list_item ''buy milk'' False], entry = [],
      tasks_txt = Some ''old'', fopen_w_ok = False, console = [], saves = 0\<rparr>"]
  by (simp add: tasks_def task_of_def create_list_item_def)

section \<open>Adding a task\<close>

text \<open>
  Claim C2, amended. For the empty input string, adding is a no-op: the list is unchanged,
  nothing is saved and nothing is created. The callback tests the length of the text only;
  a text of white space is not empty and is added like any other (C6).
\<close>

theorem add_empty_text_noop:
  assumes "entry w = []"
  shows "on_add_button_clicked w = w"
  using assms by (simp add: on_add_button_clicked_def)

text \<open>
  C2, amended, on a list of one task and an empty entry.
\<close>

theorem add_empty_text_noop_witness:
  "entry (app_with [create_list_item ''buy milk'' False] []) = []
   \<and> on_add_button_clicked (app_with [create_list_item ''buy milk'' False] []) =
     app_with [create_list_item ''buy milk'' False] []"
  using add_empty_text_noop [of "app_with [create_list_item ''buy milk'' False] []"]
  by simp

text \<open>
  Claim C2 as stated fails on a text of three spaces: it is all white space, and the
  callback appends it as a task and saves the list.
\<close>

theorem add_whitespace_text_counterexample:
  "list_all isspace ''   ''
   \<and> tasks (on_add_button_clicked (app_with [] ''   '')) =
       [\<lparr>task_text = ''   '', task_completed = False\<rparr>]
   \<and> tasks (on_add_button_clicked (app_with [] ''   '')) \<noteq>
     tasks (app_with [] ''   '')
   \<and> saves (on_add_button_clicked (app_with [] ''   '')) = 1
   \<and> tasks_txt (on_add_button_clicked (app_with [] ''   '')) = Some (''0;   '' @ [newline])"
  by (simp add: isspace_def on_add_button_clicked_def Let_def save_tasks_to_file_fields tasks_def
      task_of_def create_list_item_def file_of_def fprintf_task_def)

text \<open>
  Claim C6. For every non-empty input string (white space or not), adding appends exactly
  one row, with the text and an inactive check button, at the end of the list box; the
  rows before it are unchanged; the list is saved once, and when the file can be written
  it holds the full list, the new task included. The callback returns nothing: the task it
  creates is the last row.
\<close>

theorem add_appends_task:
  assumes "entry w \<noteq> []"
  shows "list_box (on_add_button_clicked w) = list_box w @ [create_list_item (entry w) False]
    \<and> tasks (on_add_button_clicked w) =
        tasks w @ [\<lparr>task_text = entry w, task_completed = False\<rparr>]
    \<and> saves (on_add_button_clicked w) = saves w + 1
    \<and> (fopen_w_ok w \<longrightarrow>
        tasks_txt (on_add_button_clicked w) = Some (file_of (list_box (on_add_button_clicked w))))"
  using assms
  by (simp add: on_add_button_clicked_def Let_def save_tasks_to_file_fields tasks_def task_of_def
      create_list_item_def)

text \<open>
  C6 from the empty list with the text "buy milk".
\<close>

theorem add_appends_task_witness:
  "entry (app_with [] ''buy milk'') \<noteq> []
   \<and> fopen_w_ok (app_with [] ''buy milk'')
   \<and> tasks (on_add_button_clicked (app_with [] ''buy milk'')) =
      [\<lparr>task_text = ''buy milk'', task_completed = False\<rparr>]
   \<and> tasks_txt (on_add_button_clicked (app_with [] ''buy milk'')) =
      Some (''0;buy milk'' @ [newline])"
  using add_appends_task [of "app_with [] ''buy milk''"]
  by (simp add: tasks_def task_of_def file_of_def fprintf_task_def create_list_item_def)

section \<open>Toggling a task\<close>

text \<open>
  Claim C9. For every list and every index of a row in it, toggling flips the completion
  flag of exactly that task: the tasks afterwards are the tasks before with the flag at
  that index negated, so every other task, every text and the order are unchanged.
  Toggling the same row twice gives the original tasks back.
\<close>

theorem toggle_flips_one:
  assumes "i < length (list_box w)"
  shows "map_option tasks (check_button_clicked i w) =
        Some ((tasks w)[i := (tasks w ! i)\<lparr>task_completed := \<not> task_completed (tasks w ! i)\<rparr>])
    \<and> map_option tasks (Option.bind (check_button_clicked i w) (check_button_clicked i)) =
        Some (tasks w)"
proof -
  from check_button_clicked_list_box [OF assms] obtain w1 where
    t1: "check_button_clicked i w = Some w1" and
    l1: "list_box w1 =
      (list_box w)[i := (list_box w ! i)
         \<lparr>check_active := \<not> check_active (list_box w ! i),
          label_completed := \<not> check_active (list_box w ! i)\<rparr>]"
    by blast
  have len: "i < length (list_box w1)"
    using assms by (simp add: l1)
  from check_button_clicked_list_box [OF len] obtain w2 where
    t2: "check_button_clicked i w1 = Some w2" and
    l2: "list_box w2 =
      (list_box w1)[i := (list_box w1 ! i)
         \<lparr>check_active := \<not> check_active (list_box w1 ! i),
          label_completed := \<not> check_active (list_box w1 ! i)\<rparr>]"
    by blast
  have a: "tasks w1 =
      (tasks w)[i := (tasks w ! i)\<lparr>task_completed := \<not> task_completed (tasks w ! i)\<rparr>]"
    using assms by (simp add: tasks_def l1 map_update task_of_def)
  have "map task_of (list_box w2) = map task_of (list_box w)"
    unfolding l2 using assms
    by (simp add: l1 map_update task_of_def list_update_same_conv)
  then have b: "tasks w2 = tasks w"
    by (simp add: tasks_def)
  show ?thesis
    using a b by (simp add: t1 t2)
qed

text \<open>
  C9 on two open tasks, toggling the second.
\<close>

theorem toggle_flips_one_witness:
  "(1::nat) <
     length (list_box (app_with [create_list_item ''a'' False, create_list_item ''b'' False] []))
   \<and> map_option tasks
        (check_button_clicked 1
           (app_with [create_list_item ''a'' False, create_list_item ''b'' False] [])) =
      Some [\<lparr>task_text = ''a'', task_completed = False\<rparr>,
            \<lparr>task_text = ''b'', task_completed = True\<rparr>]
   \<and> map_option tasks
        (Option.bind
           (check_button_clicked 1
              (app_with [create_list_item ''a'' False, create_list_item ''b'' False] []))
           (check_button_clicked 1)) =
      Some [\<lparr>task_text = ''a'', task_completed = False\<rparr>,
            \<lparr>task_text = ''b'', task_completed = False\<rparr>]"
  using toggle_flips_one [of 1
     "app_with [create_list_item ''a'' False, create_list_item ''b'' False] []"]
  by (simp add: tasks_def task_of_def create_list_item_def)

section \<open>Removing tasks\<close>

text \<open>
  Claim C5, amended. The selection is a set of rows of the list box itself. When at least
  one row is selected, removing takes exactly the selected rows out and keeps the others
  in their order, the list shrinks by the number of selected rows (the callback returns
  nothing), and the list is saved exactly once, after all removals: a file that can be
  written holds the remaining list. When no row is selected nothing happens, and nothing is
  saved.
\<close>

theorem remove_selected_rows:
  "(gtk_list_box_get_selected_rows (list_box w) \<noteq> [] \<longrightarrow>
      list_box (on_remove_button_clicked w) = filter (\<lambda>r. \<not> row_selected r) (list_box w)
      \<and> length (list_box (on_remove_button_clicked w)) +
          length (gtk_list_box_get_selected_rows (list_box w)) = length (list_box w)
      \<and> saves (on_remove_button_clicked w) = saves w + 1
      \<and> (fopen_w_ok w \<longrightarrow> tasks_txt (on_remove_button_clicked w) =
            Some (file_of (filter (\<lambda>r. \<not> row_selected r) (list_box w)))))
   \<and> (gtk_list_box_get_selected_rows (list_box w) = [] \<longrightarrow> on_remove_button_clicked w = w)"
proof -
  have "length (filter (\<lambda>r. \<not> row_selected r) (list_box w)) +
      length (filter row_selected (list_box w)) = length (list_box w)"
    using sum_length_filter_compl [of row_selected "list_box w"] by simp
  then show ?thesis
    by (simp add: on_remove_button_clicked_def Let_def save_tasks_to_file_fields
        remove_rows_selected)
       (simp add: gtk_list_box_get_selected_rows_def)
qed

text \<open>
  C5, amended: removing a and c from a, b, c; and removing with no selection.
\<close>

theorem remove_selected_rows_witness:
  "gtk_list_box_get_selected_rows
     (list_box
        (app_with [select_row (create_list_item ''a'' False), create_list_item ''b'' False,
           select_row (create_list_item ''c'' True)] [])) \<noteq> []
   \<and> fopen_w_ok
        (app_with [select_row (create_list_item ''a'' False), create_list_item ''b'' False,
           select_row (create_list_item ''c'' True)] [])
   \<and> tasks
        (on_remove_button_clicked
           (app_with [select_row (create_list_item ''a'' False), create_list_item ''b'' False,
           select_row (create_list_item ''c'' True)] [])) =
      [\<lparr>task_text = ''b'', task_completed = False\<rparr>]
   \<and> saves
        (on_remove_button_clicked
           (app_with [select_row (create_list_item ''a'' False), create_list_item ''b'' False,
           select_row (create_list_item ''c'' True)] [])) = 1
   \<and> tasks_txt
        (on_remove_button_clicked
           (app_with [select_row (create_list_item ''a'' False), create_list_item ''b'' False,
           select_row (create_list_item ''c'' True)] [])) =
      Some (''0;b'' @ [newline])
   \<and> gtk_list_box_get_selected_rows
        (list_box (app_with [create_list_item ''a'' False, create_list_item ''b'' False] [])) = []
   \<and> on_remove_button_clicked
        (app_with [create_list_item ''a'' False, create_list_item ''b'' False] []) =
      (app_with [create_list_item ''a'' False, create_list_item ''b'' False] [])"
  using
    remove_selected_rows [of
      "app_with [select_row (create_list_item ''a'' False), create_list_item ''b'' False,
         select_row (create_list_item ''c'' True)] []"]
    remove_selected_rows [of
      "app_with [create_list_item ''a'' False, create_list_item ''b'' False] []"]
  by (simp add: gtk_list_box_get_selected_rows_def select_row_def create_list_item_def tasks_def
      task_of_def file_of_def fprintf_task_def)

text \<open>
  Claim C5 as stated fails on the empty selection: the callback returns at once, and the
  number of saves stays 0 where the claim asks for exactly one save.
\<close>

theorem remove_nothing_selected_counterexample:
  "gtk_list_box_get_selected_rows
     (list_box (app_with [create_list_item ''a'' False, create_list_item ''b'' False] [])) = []
   \<and> saves
        (on_remove_button_clicked
           (app_with [create_list_item ''a'' False, create_list_item ''b'' False] [])) = 0
   \<and> saves
        (on_remove_button_clicked
           (app_with [create_list_item ''a'' False, create_list_item ''b'' False] [])) \<noteq>
      saves (app_with [create_list_item ''a'' False, create_list_item ''b'' False] []) + 1"
  by (simp add: on_remove_button_clicked_def gtk_list_box_get_selected_rows_def
      create_list_item_def)

section \<open>The invariant of the data model\<close>

text \<open>
  Claim C3, amended. Every task of a list produced by loading has a text without a
  newline (it may be empty, and it may hold the separator). Toggling and removing preserve
  the invariant of the data model (a non-empty text with no newline and no separator) on
  every task of the list, and adding preserves it when the text entered holds no newline
  and no separator.
\<close>

theorem task_invariant_preservation:
  "(\<forall>t \<in> set (tasks (activate file_contents writable)). newline \<notin> set (task_text t))
   \<and> ((\<forall>t \<in> set (tasks w). task_invariant t) \<and> check_button_clicked i w = Some w' \<longrightarrow>
        (\<forall>t \<in> set (tasks w'). task_invariant t))
   \<and> ((\<forall>t \<in> set (tasks w). task_invariant t) \<longrightarrow>
        (\<forall>t \<in> set (tasks (on_remove_button_clicked w)). task_invariant t))
   \<and> ((\<forall>t \<in> set (tasks w). task_invariant t) \<and> newline \<notin> set (entry w) \<and>
        semicolon \<notin> set (entry w) \<longrightarrow>
        (\<forall>t \<in> set (tasks (on_add_button_clicked w)). task_invariant t))"
proof (intro conjI)
  show "\<forall>t \<in> set (tasks (activate file_contents writable)). newline \<notin> set (task_text t)"
    by (cases file_contents)
       (auto simp: activate_def load_tasks_from_file_def tasks_def task_of_def
          dest: load_lines_no_newline)
next
  show "(\<forall>t \<in> set (tasks w). task_invariant t) \<and> check_button_clicked i w = Some w' \<longrightarrow>
        (\<forall>t \<in> set (tasks w'). task_invariant t)"
  proof (intro impI ballI, elim conjE)
    fix t
    assume inv: "\<forall>t \<in> set (tasks w). task_invariant t" and tg: "check_button_clicked i w = Some w'"
      and t: "t \<in> set (tasks w')"
    from task_invariant_after_toggle [OF tg t] obtain u where
      "u \<in> set (tasks w)" and "task_text u = task_text t" by blast
    with inv show "task_invariant t"
      by (auto simp: task_invariant_def)
  qed
next
  show "(\<forall>t \<in> set (tasks w). task_invariant t) \<longrightarrow>
        (\<forall>t \<in> set (tasks (on_remove_button_clicked w)). task_invariant t)"
    using tasks_after_remove [of w] by blast
next
  show "(\<forall>t \<in> set (tasks w). task_invariant t) \<and> newline \<notin> set (entry w) \<and>
        semicolon \<notin> set (entry w) \<longrightarrow>
        (\<forall>t \<in> set (tasks (on_add_button_clicked w)). task_invariant t)"
    by (auto simp: on_add_button_clicked_def Let_def tasks_def save_tasks_to_file_fields
        task_of_def create_list_item_def task_invariant_def)
qed

text \<open>
  C3, amended, on a file of one line and on a list of two tasks with the entry "c".
\<close>

theorem task_invariant_preservation_witness:
  "list_all (\<lambda>t. newline \<notin> set (task_text t))
      (tasks (activate (Some (''0;a;b'' @ [newline])) True))
   \<and> list_all task_invariant
        (tasks (app_with [create_list_item ''a'' False, create_list_item ''b'' False] ''c''))
   \<and> check_button_clicked 1
        (app_with [create_list_item ''a'' False, create_list_item ''b'' False] ''c'') =
      Some \<lparr>list_box = [create_list_item ''a'' False, create_list_item ''b'' True], entry = ''c'',
             tasks_txt = Some (''0;a'' @ [newline] @ ''1;b'' @ [newline]),
             fopen_w_ok = True, console = [], saves = 1\<rparr>
   \<and> list_all task_invariant
        (tasks
           \<lparr>list_box = [create_list_item ''a'' False, create_list_item ''b'' True], entry = ''c'',
             tasks_txt = Some (''0;a'' @ [newline] @ ''1;b'' @ [newline]),
             fopen_w_ok = True, console = [], saves = 1\<rparr>)
   \<and> list_all task_invariant
        (tasks
           (on_remove_button_clicked
              (app_with [create_list_item ''a'' False, create_list_item ''b'' False] ''c'')))
   \<and> newline \<notin>
        set (entry (app_with [create_list_item ''a'' False, create_list_item ''b'' False] ''c''))
   \<and> semicolon \<notin>
        set (entry (app_with [create_list_item ''a'' False, create_list_item ''b'' False] ''c''))
   \<and> list_all task_invariant
        (tasks
           (on_add_button_clicked
              (app_with [create_list_item ''a'' False, create_list_item ''b'' False] ''c'')))"
proof -
  let ?w = "app_with [create_list_item ''a'' False, create_list_item ''b'' False] ''c''"
  let ?w' = "\<lparr>list_box = [create_list_item ''a'' False, create_list_item ''b'' True], entry = ''c'',
             tasks_txt = Some (''0;a'' @ [newline] @ ''1;b'' @ [newline]),
             fopen_w_ok = True, console = [], saves = 1\<rparr>"
  have t: "check_button_clicked 1 ?w = Some ?w'"
    by (simp add: check_button_clicked_def on_check_button_toggled_def save_tasks_to_file_def
        save_rows_eq file_of_def fprintf_task_def create_list_item_def app_with_def)
  have i: "list_all task_invariant (tasks ?w)"
    by (simp add: tasks_def task_of_def task_invariant_def create_list_item_def)
  have e: "newline \<notin> set (entry ?w) \<and> semicolon \<notin> set (entry ?w)"
    by simp
  show ?thesis
    using task_invariant_preservation [of "Some (''0;a;b'' @ [newline])" True ?w 1 ?w'] t i e
    unfolding list_all_iff by blast
qed

text \<open>
  Claim C3 as stated fails. The line "0;a;b" loads as a task whose text holds the
  separator, and a line that is only a newline loads as a task with an empty text; and
  adding the text "a;b" to the empty list gives a task whose text holds the separator.
\<close>

theorem task_invariant_counterexample:
  "tasks (activate (Some (''0;a;b'' @ [newline])) True) =
      [\<lparr>task_text = ''a;b'', task_completed = False\<rparr>]
   \<and> \<not> task_invariant \<lparr>task_text = ''a;b'', task_completed = False\<rparr>
   \<and> tasks (activate (Some [newline]) True) = [\<lparr>task_text = [], task_completed = False\<rparr>]
   \<and> \<not> task_invariant \<lparr>task_text = [], task_completed = False\<rparr>
   \<and> tasks (app_with [] ''a;b'') = []
   \<and> tasks (on_add_button_clicked (app_with [] ''a;b'')) =
      [\<lparr>task_text = ''a;b'', task_completed = False\<rparr>]"
proof -
  have "lines_read (''0;a;b'' @ [newline]) = [''0;a;b'' @ [newline]]"
    using lines_read_line [of "''0;a;b''" "[]"] by (simp add: lines_read_Nil)
  moreover have "lines_read [newline] = [[newline]]"
    using lines_read_line [of "[]" "[]"] by (simp add: lines_read_Nil)
  ultimately have "tasks (activate (Some (''0;a;b'' @ [newline])) True) =
        [\<lparr>task_text = ''a;b'', task_completed = False\<rparr>]"
      and "tasks (activate (Some [newline]) True) = [\<lparr>task_text = [], task_completed = False\<rparr>]"
    using parse_line_simple_eval(1,2) by (simp_all add: tasks_activate)
  moreover have "tasks (on_add_button_clicked (app_with [] ''a;b'')) =
      [\<lparr>task_text = ''a;b'', task_completed = False\<rparr>]"
    by (simp add: on_add_button_clicked_def Let_def tasks_def save_tasks_to_file_fields
        task_of_def create_list_item_def)
  ultimately show ?thesis
    by (simp add: task_invariant_def) (simp add: tasks_def)
qed

end
